theory Spec2Isabelle
  imports Complex_Main "HOL-Library.Word" "HOL-Library.Multiset"
begin

unbundle bit_operations_syntax

section \<open>Single-precision arithmetic\<close>

text \<open>
  The C type \<^verbatim>\<open>float\<close> of \<^verbatim>\<open>game_runner.c\<close> is IEEE 754 binary32. A value is its 32-bit
  pattern: bit 31 the sign, bits 30..23 the biased exponent, bits 22..0 the fraction.
  Every finite binary32 value is an integer multiple of \<open>2 ^ -149\<close>, so the numeric
  value of a pattern is kept as that integer (\<open>f_val\<close>, in units of \<open>2 ^ -149\<close>); an
  infinity reads as \<open>\<plusminus> 2 ^ 277\<close>, beyond every finite value. Operations are
  evaluated in binary32 itself, rounding to nearest with ties to even (the default
  rounding mode; \<^verbatim>\<open>FLT_EVAL_METHOD\<close> 0). A NaN result is the one quiet NaN \<open>qnan\<close>:
  which NaN pattern the hardware delivers is not modelled.
\<close>

type_synonym float = "32 word"

definition f_sign :: "float \<Rightarrow> bool" where
  "f_sign w = (2 ^ 31 \<le> uint w)"

definition f_exp :: "float \<Rightarrow> nat" where
  "f_exp w = nat (uint w div 2 ^ 23 mod 2 ^ 8)"

definition f_frac :: "float \<Rightarrow> int" where
  "f_frac w = uint w mod 2 ^ 23"

definition is_nan :: "float \<Rightarrow> bool" where
  "is_nan w = (f_exp w = 255 \<and> f_frac w \<noteq> 0)"

definition is_inf :: "float \<Rightarrow> bool" where
  "is_inf w = (f_exp w = 255 \<and> f_frac w = 0)"

definition f_mag :: "float \<Rightarrow> int" where
  "f_mag w = (if f_exp w = 0 then f_frac w
              else (2 ^ 23 + f_frac w) * 2 ^ (f_exp w - 1))"

definition f_val :: "float \<Rightarrow> int" where
  "f_val w = (if f_sign w then - f_mag w else f_mag w)"

text \<open>The value as a real number (meaningful for finite patterns).\<close>

definition f_real :: "float \<Rightarrow> real" where
  "f_real w = real_of_int (f_val w) / 2 ^ 149"

text \<open>Number of binary digits of a positive integer.\<close>

function bitlen :: "int \<Rightarrow> nat" where
  "bitlen n = (if n \<le> 0 then 0 else Suc (bitlen (n div 2)))"
  by pat_completeness auto
termination
  by (relation "measure nat") auto

declare bitlen.simps [simp del]

text \<open>
  Rounding a magnitude (in units of \<open>2 ^ -149\<close>) to 24 significant bits, to nearest,
  ties to even. Below \<open>2 ^ 24\<close> units every integer is representable (subnormals and
  the first binade of normal numbers).
\<close>

definition round_mag :: "int \<Rightarrow> int" where
  "round_mag n =
     (if n < 2 ^ 24 then n
      else let sh = bitlen n - 24;
               q = n div 2 ^ sh;
               r = n mod 2 ^ sh;
               q' = (if 2 * r > 2 ^ sh \<or> (2 * r = 2 ^ sh \<and> odd q) then q + 1 else q)
           in q' * 2 ^ sh)"

definition f_pack :: "bool \<Rightarrow> nat \<Rightarrow> int \<Rightarrow> float" where
  "f_pack s e f = word_of_int ((if s then 2 ^ 31 else 0) + int e * 2 ^ 23 + f)"

text \<open>The pattern of a rounded magnitude; \<open>2 ^ 277\<close> units and more is an infinity.\<close>

definition f_encode :: "bool \<Rightarrow> int \<Rightarrow> float" where
  "f_encode s m =
     (if m \<ge> 2 ^ 277 then f_pack s 255 0
      else if m < 2 ^ 23 then f_pack s 0 m
      else let sh = bitlen m - 24 in f_pack s (sh + 1) (m div 2 ^ sh - 2 ^ 23))"

text \<open>
  Rounding an exact value (in units of \<open>2 ^ -149\<close>); \<open>z\<close> is the sign an exact zero
  takes.
\<close>

definition f_round :: "bool \<Rightarrow> int \<Rightarrow> float" where
  "f_round z v =
     (if v = 0 then f_pack z 0 0 else f_encode (v < 0) (round_mag \<bar>v\<bar>))"

text \<open>
  A value (in units of \<open>2 ^ -149\<close>) that is a finite binary32 number, so that rounding
  leaves it as it is: at most 24 significant bits and below the overflow threshold.
\<close>

definition exact :: "int \<Rightarrow> bool" where
  "exact v = (\<bar>v\<bar> < 2 ^ 277 \<and> \<bar>v\<bar> mod 2 ^ (bitlen \<bar>v\<bar> - 24) = 0)"

definition qnan :: float where
  "qnan = 0x7FC00000"

text \<open>
  A C \<^verbatim>\<open>int\<close> is a 32-bit word read in two's complement (\<open>sint\<close>); its conversion
  to \<^verbatim>\<open>float\<close> rounds like every other operation.
\<close>

type_synonym c_int = "32 word"

definition f_of_sint :: "c_int \<Rightarrow> float" where
  "f_of_sint i = f_round False (sint i * 2 ^ 149)"

text \<open>Unary minus flips the sign bit.\<close>

definition f_neg :: "float \<Rightarrow> float" where
  "f_neg w = w XOR 0x80000000"

definition f_add :: "float \<Rightarrow> float \<Rightarrow> float" where
  "f_add a b =
     (if is_nan a \<or> is_nan b then qnan
      else if is_inf a then (if is_inf b \<and> f_sign a \<noteq> f_sign b then qnan else a)
      else if is_inf b then b
      else f_round (f_sign a \<and> f_sign b) (f_val a + f_val b))"

text \<open>Comparisons: every comparison with a NaN is false; \<open>-0\<close> equals \<open>+0\<close>.\<close>

definition f_lt :: "float \<Rightarrow> float \<Rightarrow> bool" where
  "f_lt a b = (\<not> is_nan a \<and> \<not> is_nan b \<and> f_val a < f_val b)"

definition f_le :: "float \<Rightarrow> float \<Rightarrow> bool" where
  "f_le a b = (\<not> is_nan a \<and> \<not> is_nan b \<and> f_val a \<le> f_val b)"

definition f_gt :: "float \<Rightarrow> float \<Rightarrow> bool" where
  "f_gt a b = f_lt b a"

definition f_ge :: "float \<Rightarrow> float \<Rightarrow> bool" where
  "f_ge a b = f_le b a"

section \<open>Constants and data of \<^verbatim>\<open>game_runner.c\<close>\<close>

text \<open>The integer macros (lines 5-8) have type \<^verbatim>\<open>int\<close>.\<close>

definition WINDOW_WIDTH :: "c_int" where
  "WINDOW_WIDTH = 800"

definition WINDOW_HEIGHT :: "c_int" where
  "WINDOW_HEIGHT = 600"

definition PLAYER_SIZE :: "c_int" where
  "PLAYER_SIZE = 20"

definition BLOCK_SIZE :: "c_int" where
  "BLOCK_SIZE = 40"

text \<open>
  The \<^verbatim>\<open>float\<close> macros (lines 9-11): \<^verbatim>\<open>0.5f\<close>, \<^verbatim>\<open>-12.0f\<close> (unary minus applied to
  \<^verbatim>\<open>12.0f\<close>) and \<^verbatim>\<open>5.0f\<close>, as binary32 patterns.
\<close>

definition GRAVITY :: float where
  "GRAVITY = 0x3F000000"

definition JUMP_STRENGTH :: float where
  "JUMP_STRENGTH = f_neg 0x41400000"

definition MOVE_SPEED :: float where
  "MOVE_SPEED = 0x40A00000"

text \<open>
  \<^verbatim>\<open>struct Player\<close> (lines 21-25) and \<^verbatim>\<open>struct Block\<close> (lines 32-34). The fields
  carry a prefix, since \<open>x\<close> and \<open>y\<close> name fields of both structs.
\<close>

record Player =
  p_x :: float
  p_y :: float
  p_vx :: float
  p_vy :: float
  on_ground :: bool

record Block =
  b_x :: "c_int"
  b_y :: "c_int"

definition mk_block :: "c_int \<Rightarrow> c_int \<Rightarrow> Block" where
  "mk_block bx by = \<lparr>b_x = bx, b_y = by\<rparr>"

text \<open>The global array \<^verbatim>\<open>level\<close> (lines 41-50), in its order.\<close>

definition level :: "Block list" where
  "level =
     [mk_block 0 560, mk_block 40 560, mk_block 80 560, mk_block 120 560,
      mk_block 160 560, mk_block 200 560, mk_block 240 560, mk_block 280 560,
      mk_block 320 560, mk_block 360 560, mk_block 400 560, mk_block 440 560,
      mk_block 480 560, mk_block 520 560, mk_block 560 560, mk_block 600 560,
      mk_block 640 560, mk_block 680 560, mk_block 720 560, mk_block 760 560,
      mk_block 200 480, mk_block 240 480, mk_block 280 480,
      mk_block 400 400, mk_block 440 400,
      mk_block 600 320, mk_block 640 320, mk_block 680 320,
      mk_block 100 360, mk_block 140 360,
      mk_block 500 240, mk_block 540 240, mk_block 580 240]"

definition level_size :: nat where
  "level_size = length level"

text \<open>
  The keyboard state is SDL's array of \<^verbatim>\<open>Uint8\<close> indexed by scancode; a key is held
  when its entry is non-zero. The scancode numbers are those of SDL2's
  \<^verbatim>\<open>SDL_scancode.h\<close>.
\<close>

type_synonym keystate = "nat \<Rightarrow> 8 word"

definition SDL_SCANCODE_A :: nat where
  "SDL_SCANCODE_A = 4"

definition SDL_SCANCODE_D :: nat where
  "SDL_SCANCODE_D = 7"

definition SDL_SCANCODE_W :: nat where
  "SDL_SCANCODE_W = 26"

definition SDL_SCANCODE_SPACE :: nat where
  "SDL_SCANCODE_SPACE = 44"

definition SDL_SCANCODE_RIGHT :: nat where
  "SDL_SCANCODE_RIGHT = 79"

definition SDL_SCANCODE_LEFT :: nat where
  "SDL_SCANCODE_LEFT = 80"

definition SDL_SCANCODE_UP :: nat where
  "SDL_SCANCODE_UP = 82"

section \<open>The collision test\<close>

text \<open>
  \<^verbatim>\<open>check_collision\<close> (lines 66-71). \<^verbatim>\<open>bx + BLOCK_SIZE\<close> is an \<^verbatim>\<open>int\<close> sum,
  converted to \<^verbatim>\<open>float\<close> for the comparison; \<^verbatim>\<open>px + PLAYER_SIZE\<close> is a \<^verbatim>\<open>float\<close>
  sum. C leaves signed overflow undefined; the \<^verbatim>\<open>int\<close> sum here is the two's
  complement one.
\<close>

definition check_collision :: "float \<Rightarrow> float \<Rightarrow> c_int \<Rightarrow> c_int \<Rightarrow> bool" where
  "check_collision px py bx by =
     (f_lt px (f_of_sint (bx + BLOCK_SIZE)) \<and>
      f_gt (f_add px (f_of_sint PLAYER_SIZE)) (f_of_sint bx) \<and>
      f_lt py (f_of_sint (by + BLOCK_SIZE)) \<and>
      f_gt (f_add py (f_of_sint PLAYER_SIZE)) (f_of_sint by))"

section \<open>The simulation step\<close>

text \<open>
  \<^verbatim>\<open>update_player\<close> (lines 81-155) mutates the player in place and reads the global
  \<^verbatim>\<open>level\<close>; the model takes the level and the player and returns the new player
  (the program runs it on \<open>level\<close>). Its body is a sequence of four blocks, each a
  function here.
\<close>

text \<open>Lines 83-98: horizontal velocity from the keys, jump, gravity.\<close>

definition update_input :: "Player \<Rightarrow> keystate \<Rightarrow> Player" where
  "update_input p keys =
     (let p1 = p\<lparr>p_vx := f_of_sint 0\<rparr>;
          p2 = (if keys SDL_SCANCODE_LEFT \<noteq> 0 \<or> keys SDL_SCANCODE_A \<noteq> 0
                then p1\<lparr>p_vx := f_neg MOVE_SPEED\<rparr> else p1);
          p3 = (if keys SDL_SCANCODE_RIGHT \<noteq> 0 \<or> keys SDL_SCANCODE_D \<noteq> 0
                then p2\<lparr>p_vx := MOVE_SPEED\<rparr> else p2);
          p4 = (if (keys SDL_SCANCODE_SPACE \<noteq> 0 \<or> keys SDL_SCANCODE_UP \<noteq> 0 \<or>
                    keys SDL_SCANCODE_W \<noteq> 0) \<and> on_ground p3
                then p3\<lparr>p_vy := JUMP_STRENGTH, on_ground := False\<rparr> else p3)
      in p4\<lparr>p_vy := f_add (p_vy p4) GRAVITY\<rparr>)"

text \<open>Lines 109-114: the loop that sets \<^verbatim>\<open>x_collision\<close>, leaving at the first hit.\<close>

fun x_collision :: "Block list \<Rightarrow> float \<Rightarrow> float \<Rightarrow> bool" where
  "x_collision [] new_x y = False"
| "x_collision (b # bs) new_x y =
     (if check_collision new_x y (b_x b) (b_y b) then True
      else x_collision bs new_x y)"

text \<open>Lines 106-118.\<close>

definition update_horizontal :: "Block list \<Rightarrow> Player \<Rightarrow> Player" where
  "update_horizontal lvl p =
     (let new_x = f_add (p_x p) (p_vx p) in
      if \<not> x_collision lvl new_x (p_y p) \<and> f_ge new_x (f_of_sint 0) \<and>
         f_le new_x (f_of_sint (WINDOW_WIDTH - PLAYER_SIZE))
      then p\<lparr>p_x := new_x\<rparr> else p)"

text \<open>
  Lines 130-143: the loop over the level that resolves the first hit and leaves;
  the second component is \<^verbatim>\<open>y_collision\<close>. \<^verbatim>\<open>level[i].y - PLAYER_SIZE\<close> and
  \<^verbatim>\<open>level[i].y + BLOCK_SIZE\<close> are \<^verbatim>\<open>int\<close> operations (two's complement, as above),
  converted to \<^verbatim>\<open>float\<close> by the assignment.
\<close>

fun y_scan :: "Block list \<Rightarrow> float \<Rightarrow> Player \<Rightarrow> Player \<times> bool" where
  "y_scan [] new_y p = (p, False)"
| "y_scan (b # bs) new_y p =
     (if check_collision (p_x p) new_y (b_x b) (b_y b) then
        (if f_gt (p_vy p) (f_of_sint 0)
         then (p\<lparr>p_y := f_of_sint (b_y b - PLAYER_SIZE), p_vy := f_of_sint 0,
                 on_ground := True\<rparr>, True)
         else (p\<lparr>p_y := f_of_sint (b_y b + BLOCK_SIZE), p_vy := f_of_sint 0\<rparr>, True))
      else y_scan bs new_y p)"

text \<open>Lines 126-147.\<close>

definition update_vertical :: "Block list \<Rightarrow> Player \<Rightarrow> Player" where
  "update_vertical lvl p =
     (let new_y = f_add (p_y p) (p_vy p);
          (p', y_collision) = y_scan lvl new_y (p\<lparr>on_ground := False\<rparr>)
      in if \<not> y_collision then p'\<lparr>p_y := new_y\<rparr> else p')"

text \<open>Lines 150-154.\<close>

definition update_bounds :: "Player \<Rightarrow> Player" where
  "update_bounds p =
     (if f_gt (p_y p) (f_of_sint WINDOW_HEIGHT)
      then p\<lparr>p_x := f_of_sint 100, p_y := f_of_sint 400, p_vy := f_of_sint 0\<rparr>
      else p)"

definition update_player :: "Block list \<Rightarrow> Player \<Rightarrow> keystate \<Rightarrow> Player" where
  "update_player lvl p keys =
     update_bounds (update_vertical lvl (update_horizontal lvl (update_input p keys)))"

section \<open>Overlap with the level, and the inputs used as examples\<close>

text \<open>The player's box overlaps some block of the level.\<close>

definition overlaps_any :: "Block list \<Rightarrow> Player \<Rightarrow> bool" where
  "overlaps_any lvl p = (\<exists>b \<in> set lvl. check_collision (p_x p) (p_y p) (b_x b) (b_y b))"


text \<open>
  Coordinates the game produces: a finite \<^verbatim>\<open>float\<close> that is a multiple of \<open>1/2\<close> of
  magnitude at most \<open>2 ^ 22\<close>, and an \<^verbatim>\<open>int\<close> of magnitude at most \<open>2 ^ 24 - 40\<close>.
\<close>

definition on_half_grid :: "float \<Rightarrow> bool" where
  "on_half_grid a = (f_exp a < 255 \<and> f_val a mod 2 ^ 148 = 0 \<and> \<bar>f_val a\<bar> \<le> 2 ^ 22 * 2 ^ 149)"

definition small_int :: "c_int \<Rightarrow> bool" where
  "small_int i = (\<bar>sint i\<bar> \<le> 2 ^ 24 - 40)"

text \<open>No key held.\<close>

definition no_keys :: keystate where
  "no_keys = (\<lambda>k. 0)"

text \<open>The player as \<^verbatim>\<open>main\<close> creates it (line 207): \<^verbatim>\<open>{100, 400, 0, 0, false}\<close>.\<close>

definition spawn :: Player where
  "spawn = \<lparr>p_x = f_of_sint 100, p_y = f_of_sint 400, p_vx = f_of_sint 0,
             p_vy = f_of_sint 0, on_ground = False\<rparr>"

text \<open>A level of one block, with a player standing on it.\<close>

definition one_block :: "Block list" where
  "one_block = [mk_block 100 560]"

definition standing :: Player where
  "standing = \<lparr>p_x = f_of_sint 100, p_y = f_of_sint 540, p_vx = f_of_sint 0,
                p_vy = f_of_sint 0, on_ground = False\<rparr>"

text \<open>
  A level of two blocks side by side, the second one row higher, and a player above
  both that falls 60 units per tick.
\<close>

definition two_blocks :: "Block list" where
  "two_blocks = [mk_block 100 560, mk_block 140 520]"

definition falling :: Player where
  "falling = \<lparr>p_x = f_of_sint 125, p_y = f_of_sint 490, p_vx = f_of_sint 0,
               p_vy = f_of_sint 60, on_ground = False\<rparr>"

text \<open>A player whose box reaches into the block of \<open>one_block\<close>.\<close>

definition sunk :: Player where
  "sunk = \<lparr>p_x = f_of_sint 100, p_y = f_of_sint 550, p_vx = f_of_sint 0,
            p_vy = f_of_sint 0, on_ground = False\<rparr>"

text \<open>
  A block far beyond the range where every \<^verbatim>\<open>int\<close> is a \<^verbatim>\<open>float\<close> (its \<open>y\<close> is
  \<open>2 ^ 25 + 26\<close>), and a player falling onto it.
\<close>

definition far_block :: "Block list" where
  "far_block = [mk_block 100 33554458]"

definition far_player :: Player where
  "far_player = \<lparr>p_x = f_of_sint 100, p_y = f_of_sint 33554440, p_vx = f_of_sint 0,
                  p_vy = GRAVITY, on_ground = False\<rparr>"

section \<open>Properties\<close>

subsection \<open>Bit length\<close>

lemma bitlen_pos: "0 < n \<Longrightarrow> bitlen n = Suc (bitlen (n div 2))"
  by (subst bitlen.simps) simp

lemma bitlen_nonpos: "n \<le> 0 \<Longrightarrow> bitlen n = 0"
  by (subst bitlen.simps) simp

lemma bitlen_bounds: "0 < n \<Longrightarrow> 2 ^ (bitlen n - 1) \<le> n \<and> n < 2 ^ bitlen n"
proof (induction n rule: bitlen.induct)
  case (1 n)
  show ?case
  proof (cases "n = 1")
    case True
    then show ?thesis
      by (simp add: bitlen_pos bitlen_nonpos)
  next
    case False
    with "1.prems" have half: "0 < n div 2"
      by simp
    with "1.IH" "1.prems" have IH: "2 ^ (bitlen (n div 2) - 1) \<le> n div 2" "n div 2 < 2 ^ bitlen (n div 2)"
      by simp_all
    have pos: "0 < bitlen (n div 2)"
      using half by (simp add: bitlen_pos)
    have eq: "bitlen n = Suc (bitlen (n div 2))"
      using "1.prems" by (rule bitlen_pos)
    have "2 * 2 ^ (bitlen (n div 2) - 1) \<le> n"
      using IH(1) by linarith
    moreover have "(2::int) * 2 ^ (bitlen (n div 2) - 1) = 2 ^ bitlen (n div 2)"
      using pos by (cases "bitlen (n div 2)") simp_all
    moreover have "n < 2 * 2 ^ bitlen (n div 2)"
      using IH(2) by linarith
    ultimately show ?thesis
      by (simp add: eq)
  qed
qed

lemma bitlen_unique:
  assumes "2 ^ k \<le> n" "n < 2 ^ Suc k"
  shows "bitlen n = Suc k"
proof -
  have pos: "0 < n"
    using assms(1) by (smt (verit) zero_less_power)
  from bitlen_bounds [OF pos] have b: "2 ^ (bitlen n - 1) \<le> n" "n < 2 ^ bitlen n"
    by simp_all
  have "(2::int) ^ k < 2 ^ bitlen n"
    using assms(1) b(2) by linarith
  then have 1: "k < bitlen n"
    by (simp add: power_strict_increasing_iff)
  have "(2::int) ^ (bitlen n - 1) < 2 ^ Suc k"
    using assms(2) b(1) by linarith
  then have 2: "bitlen n - 1 < Suc k"
    using power_strict_increasing_iff [of "2::int" "bitlen n - 1" "Suc k"] by simp
  from 1 2 show ?thesis
    by linarith
qed

lemma bitlen_shift: "0 < n \<Longrightarrow> bitlen (n * 2 ^ k) = bitlen n + k"
proof -
  assume pos: "0 < n"
  from bitlen_bounds [OF pos] have b: "2 ^ (bitlen n - 1) \<le> n" "n < 2 ^ bitlen n"
    by simp_all
  have bl: "0 < bitlen n"
    using pos by (simp add: bitlen_pos)
  have "2 ^ (bitlen n - 1) * 2 ^ k \<le> n * (2::int) ^ k"
    using b(1) by (simp add: mult_right_mono)
  then have lo: "2 ^ (bitlen n - 1 + k) \<le> n * (2::int) ^ k"
    by (simp add: power_add)
  have "n * (2::int) ^ k < 2 ^ bitlen n * 2 ^ k"
    using b(2) by (simp add: mult_strict_right_mono)
  then have hi: "n * (2::int) ^ k < 2 ^ Suc (bitlen n - 1 + k)"
    using bl by (simp add: power_add [symmetric])
  from bitlen_unique [OF lo hi] bl show ?thesis
    by simp
qed


lemma bitlen_ge:
  assumes "2 ^ k \<le> n"
  shows "k < bitlen n"
proof -
  have pos: "0 < n"
    using assms by (smt (verit) zero_less_power)
  from bitlen_bounds [OF pos] have "n < 2 ^ bitlen n"
    by simp
  with assms have "(2::int) ^ k < 2 ^ bitlen n"
    by linarith
  then show ?thesis
    by (simp add: power_strict_increasing_iff)
qed

lemma bitlen_le:
  assumes "0 < n" "n < 2 ^ k"
  shows "bitlen n \<le> k"
proof -
  from bitlen_bounds [OF assms(1)] have "2 ^ (bitlen n - 1) \<le> n"
    by simp
  with assms(2) have "(2::int) ^ (bitlen n - 1) < 2 ^ k"
    by linarith
  then have "bitlen n - 1 < k"
    using power_strict_increasing_iff [of "2::int" "bitlen n - 1" k] by simp
  then show ?thesis
    by linarith
qed

subsection \<open>Packing and unpacking\<close>

lemma uint_word_of_int_32: "0 \<le> x \<Longrightarrow> x < 2 ^ 32 \<Longrightarrow> uint (word_of_int x :: 32 word) = x"
  by (simp add: uint_word_of_int take_bit_int_eq_self)

lemma uint_f_pack:
  assumes "e < 256" "0 \<le> f" "f < 2 ^ 23"
  shows "uint (f_pack s e f) = (if s then 2 ^ 31 else 0) + int e * 2 ^ 23 + f"
proof -
  have "int e \<le> 255"
    using assms(1) by simp
  then have "int e * 2 ^ 23 \<le> 255 * 2 ^ 23"
    by simp
  then have "0 \<le> (if s then 2 ^ 31 else 0) + int e * 2 ^ 23 + f"
      "(if s then 2 ^ 31 else 0) + int e * 2 ^ 23 + f < 2 ^ 32"
    using assms(2,3) by simp_all
  then show ?thesis
    unfolding f_pack_def by (rule uint_word_of_int_32)
qed

lemma f_pack_fields:
  assumes "e < 256" "0 \<le> f" "f < 2 ^ 23"
  shows "f_exp (f_pack s e f) = e" "f_frac (f_pack s e f) = f" "f_sign (f_pack s e f) = s"
proof -
  let ?x = "(if s then 2 ^ 31 else 0) + int e * 2 ^ 23 + f"
  have u: "uint (f_pack s e f) = ?x"
    using assms by (rule uint_f_pack)
  have e: "int e < 256" "0 \<le> int e"
    using assms(1) by simp_all
  have x: "?x = ((if s then 256 else 0) + int e) * 2 ^ 23 + f"
    by simp
  have d: "?x div 2 ^ 23 = (if s then 256 else 0) + int e"
    unfolding x using assms(2,3) by (simp only: div_mult_self3 div_pos_pos_trivial)
  have "((if s then 256 else 0) + int e) mod 2 ^ 8 = int e"
    using e by (simp add: mod_pos_pos_trivial)
  then show "f_exp (f_pack s e f) = e"
    by (simp only: f_exp_def u d nat_int)
  have m: "?x mod 2 ^ 23 = f"
    unfolding x using assms(2,3) by (simp only: mod_mult_self3 mod_pos_pos_trivial)
  show "f_frac (f_pack s e f) = f"
    by (simp only: f_frac_def u m)
  have "int e * 2 ^ 23 + f < 2 ^ 31"
    using e assms(3) by simp
  moreover have "0 \<le> int e * 2 ^ 23 + f"
    using assms(2) by simp
  ultimately show "f_sign (f_pack s e f) = s"
    by (simp add: f_sign_def u)
qed

subsection \<open>Rounding leaves representable values alone\<close>

lemma div_lt_bound:
  fixes m a k :: int
  assumes "0 < k" "m < a * k"
  shows "m div k < a"
proof -
  have "m div k * k = m - m mod k"
    by (simp add: algebra_simps minus_mod_eq_mult_div)
  moreover have "0 \<le> m mod k"
    using assms(1) by simp
  ultimately have "m div k * k < a * k"
    using assms(2) by linarith
  then show ?thesis
    using assms(1) by (simp add: mult_less_cancel_right)
qed

lemma div_ge_bound:
  fixes m a k :: int
  assumes "0 < k" "a * k \<le> m"
  shows "a \<le> m div k"
proof -
  have "a * k div k \<le> m div k"
    using assms(2,1) by (rule zdiv_mono1)
  then show ?thesis
    using assms(1) by simp
qed

lemma div_mult_exact:
  fixes m k :: int
  assumes "m mod k = 0"
  shows "m div k * k = m"
  using assms by (simp add: mod_0_imp_dvd)

lemma f_encode_exact:
  assumes "0 \<le> m" "m < 2 ^ 277" "m mod 2 ^ (bitlen m - 24) = 0"
  shows "f_mag (f_encode s m) = m" "f_exp (f_encode s m) < 255" "f_sign (f_encode s m) = s"
proof -
  have "f_mag (f_encode s m) = m \<and> f_exp (f_encode s m) < 255 \<and> f_sign (f_encode s m) = s"
  proof (cases "m < 2 ^ 23")
    case True
    then have enc: "f_encode s m = f_pack s 0 m"
      using assms(2) by (simp add: f_encode_def)
    from f_pack_fields [of 0 m s] assms(1) True
    show ?thesis
      by (simp add: enc f_mag_def)
  next
    case False
    define sh where "sh = bitlen m - 24"
    define q where "q = m div 2 ^ sh"
    from False have lo: "2 ^ 23 \<le> m"
      by simp
    then have pos: "0 < m"
      by simp
    have b23: "23 < bitlen m"
      using lo by (rule bitlen_ge)
    have b277: "bitlen m \<le> 277"
      using pos assms(2) by (rule bitlen_le)
    have sh: "sh + 24 = bitlen m" "sh + 1 < 255"
      using b23 b277 by (simp_all add: sh_def)
    from bitlen_bounds [OF pos] have b: "2 ^ (bitlen m - 1) \<le> m" "m < 2 ^ bitlen m"
      by simp_all
    have "bitlen m - 1 = 23 + sh"
      using sh(1) by simp
    then have "2 ^ 23 * 2 ^ sh \<le> m"
      using b(1) by (simp add: power_add)
    then have q_lo: "2 ^ 23 \<le> q"
      unfolding q_def by (intro div_ge_bound) simp_all
    have "(2::int) ^ bitlen m = 2 ^ (24 + sh)"
      using sh(1) by (simp add: add.commute)
    also have "\<dots> = 2 ^ 24 * 2 ^ sh"
      by (rule power_add)
    finally have "m < 2 ^ 24 * 2 ^ sh"
      using b(2) by simp
    then have q_hi: "q < 2 ^ 24"
      unfolding q_def by (intro div_lt_bound) simp_all
    have enc: "f_encode s m = f_pack s (sh + 1) (q - 2 ^ 23)"
      using assms(2) False by (simp add: f_encode_def Let_def sh_def q_def)
    have m: "q * 2 ^ sh = m"
      unfolding q_def sh_def using assms(3) by (rule div_mult_exact)
    from f_pack_fields [of "sh + 1" "q - 2 ^ 23" s] sh(2) q_lo q_hi
    show ?thesis
      by (simp add: enc f_mag_def m)
  qed
  then show "f_mag (f_encode s m) = m" "f_exp (f_encode s m) < 255" "f_sign (f_encode s m) = s"
    by simp_all
qed

lemma round_mag_exact:
  assumes "m mod 2 ^ (bitlen m - 24) = 0"
  shows "round_mag m = m"
  using assms div_mult_exact [OF assms] by (simp add: round_mag_def Let_def)

lemma f_round_exact:
  assumes "exact v"
  shows "f_val (f_round z v) = v" "f_exp (f_round z v) < 255"
proof -
  have "f_val (f_round z v) = v \<and> f_exp (f_round z v) < 255"
  proof (cases "v = 0")
    case True
    from f_pack_fields [of 0 0 z]
    have "f_exp (f_pack z 0 0) = 0" "f_frac (f_pack z 0 0) = 0"
      by simp_all
    then show ?thesis
      by (simp add: True f_round_def f_val_def f_mag_def)
  next
    case False
    from assms have a: "\<bar>v\<bar> < 2 ^ 277" "\<bar>v\<bar> mod 2 ^ (bitlen \<bar>v\<bar> - 24) = 0"
      by (simp_all add: exact_def)
    have r: "round_mag \<bar>v\<bar> = \<bar>v\<bar>"
      using a(2) by (rule round_mag_exact)
    define w where "w = f_encode (v < 0) \<bar>v\<bar>"
    have fr: "f_round z v = w"
      using False by (simp only: f_round_def r w_def if_False)
    from f_encode_exact [of "\<bar>v\<bar>" "v < 0"] a
    have "f_mag w = \<bar>v\<bar>" "f_exp w < 255" "f_sign w = (v < 0)"
      by (simp_all add: w_def)
    then show ?thesis
      by (simp add: fr f_val_def)
  qed
  then show "f_val (f_round z v) = v" "f_exp (f_round z v) < 255"
    by simp_all
qed

lemma exact_0: "exact 0"
  by (simp add: exact_def)

lemma exact_scaled:
  assumes "\<bar>n\<bar> \<le> 2 ^ 24" "k \<le> 252"
  shows "exact (n * 2 ^ k)"
proof (cases "n = 0")
  case True
  then show ?thesis
    by (simp add: exact_0)
next
  case False
  define a where "a = \<bar>n\<bar>"
  have a: "0 < a" "a \<le> 2 ^ 24"
    using False assms(1) by (simp_all add: a_def)
  have abs: "\<bar>n * 2 ^ k\<bar> = a * 2 ^ k"
    by (simp add: a_def abs_mult)
  have "a * 2 ^ k \<le> 2 ^ 24 * 2 ^ k"
    using a(2) by (simp add: mult_right_mono)
  also have "\<dots> = 2 ^ (24 + k)"
    by (simp add: power_add)
  also have "\<dots> < (2::int) ^ 277"
    using assms(2) by (intro power_strict_increasing) simp_all
  finally have small: "a * 2 ^ k < 2 ^ 277" .
  have len: "bitlen (a * 2 ^ k) = bitlen a + k"
    using a(1) by (rule bitlen_shift)
  have "a * 2 ^ k mod 2 ^ (bitlen a + k - 24) = 0"
  proof (cases "a < 2 ^ 24")
    case True
    with a(1) have "bitlen a \<le> 24"
      by (rule bitlen_le)
    then have "bitlen a + k - 24 \<le> k"
      by simp
    then have "(2::int) ^ (bitlen a + k - 24) dvd 2 ^ k"
      by (rule le_imp_power_dvd)
    then have "(2::int) ^ (bitlen a + k - 24) dvd a * 2 ^ k"
      by (rule dvd_mult)
    then show ?thesis
      by (simp add: mod_eq_0_iff_dvd)
  next
    case False
    with a(2) have eq: "a = 2 ^ 24"
      by simp
    have "2 ^ 24 \<le> a" "a < 2 ^ Suc 24"
      by (simp_all add: eq)
    then have "bitlen a = Suc 24"
      by (rule bitlen_unique)
    then have "bitlen a + k - 24 \<le> 24 + k"
      by simp
    then have "(2::int) ^ (bitlen a + k - 24) dvd 2 ^ (24 + k)"
      by (rule le_imp_power_dvd)
    then have "(2::int) ^ (bitlen a + k - 24) dvd a * 2 ^ k"
      by (simp add: eq power_add)
    then show ?thesis
      by (simp add: mod_eq_0_iff_dvd)
  qed
  then show ?thesis
    using small by (simp add: exact_def abs len)
qed

lemma f_of_sint_exact:
  assumes "\<bar>sint i\<bar> \<le> 2 ^ 24"
  shows "f_val (f_of_sint i) = sint i * 2 ^ 149" "f_exp (f_of_sint i) < 255"
proof -
  have "exact (sint i * 2 ^ 149)"
    using assms by (rule exact_scaled) simp
  then show "f_val (f_of_sint i) = sint i * 2 ^ 149" "f_exp (f_of_sint i) < 255"
    unfolding f_of_sint_def by (rule f_round_exact)+
qed

lemma finite_not_special: "f_exp a < 255 \<Longrightarrow> \<not> is_nan a \<and> \<not> is_inf a"
  by (simp add: is_nan_def is_inf_def)

lemma f_add_exact:
  assumes "f_exp a < 255" "f_exp b < 255" "exact (f_val a + f_val b)"
  shows "f_val (f_add a b) = f_val a + f_val b" "f_exp (f_add a b) < 255"
proof -
  have "f_add a b = f_round (f_sign a \<and> f_sign b) (f_val a + f_val b)"
    using assms(1,2) by (simp add: f_add_def finite_not_special)
  then show "f_val (f_add a b) = f_val a + f_val b" "f_exp (f_add a b) < 255"
    using f_round_exact [OF assms(3)] by simp_all
qed


lemma f_le_finite: "f_exp a < 255 \<Longrightarrow> f_exp b < 255 \<Longrightarrow> f_le a b = (f_val a \<le> f_val b)"
  by (simp add: f_le_def finite_not_special)

lemma f_real_less: "(f_real a < f_real b) = (f_val a < f_val b)"
  by (simp add: f_real_def divide_less_cancel)


lemma sint_add_small:
  fixes a b :: "32 word"
  assumes "\<bar>sint a\<bar> \<le> 2 ^ 24" "\<bar>sint b\<bar> \<le> 2 ^ 24"
  shows "sint (a + b) = sint a + sint b" "sint (a - b) = sint a - sint b"
proof -
  have "- (2 ^ 31) \<le> sint a + sint b" "sint a + sint b < 2 ^ 31"
    "- (2 ^ 31) \<le> sint a - sint b" "sint a - sint b < 2 ^ 31"
    using assms by simp_all
  then show "sint (a + b) = sint a + sint b" "sint (a - b) = sint a - sint b"
    by (simp_all add: sint_word_ariths signed_take_bit_int_eq_self)
qed

subsection \<open>The collision test on the coordinates of the game\<close>

lemma sint_sizes: "sint PLAYER_SIZE = 20" "sint BLOCK_SIZE = 40"
  by (simp_all add: PLAYER_SIZE_def BLOCK_SIZE_def)

lemma f_val_PLAYER_SIZE:
  "f_val (f_of_sint PLAYER_SIZE) = 20 * 2 ^ 149" "f_exp (f_of_sint PLAYER_SIZE) < 255"
  using f_of_sint_exact [of PLAYER_SIZE] by (simp_all add: sint_sizes)

lemma small_int_plus:
  assumes "small_int i"
  shows "sint (i + BLOCK_SIZE) = sint i + 40" "sint (i - PLAYER_SIZE) = sint i - 20"
    "\<bar>sint i\<bar> \<le> 2 ^ 24" "\<bar>sint i + 40\<bar> \<le> 2 ^ 24" "\<bar>sint i - 20\<bar> \<le> 2 ^ 24"
proof -
  from assms have a: "\<bar>sint i\<bar> \<le> 2 ^ 24 - 40"
    by (simp add: small_int_def)
  then show b: "\<bar>sint i\<bar> \<le> 2 ^ 24"
    by simp
  from sint_add_small [of i BLOCK_SIZE] b show "sint (i + BLOCK_SIZE) = sint i + 40"
    by (simp add: sint_sizes)
  from sint_add_small [of i PLAYER_SIZE] b show "sint (i - PLAYER_SIZE) = sint i - 20"
    by (simp add: sint_sizes)
  from a show "\<bar>sint i + 40\<bar> \<le> 2 ^ 24" "\<bar>sint i - 20\<bar> \<le> 2 ^ 24"
    by simp_all
qed




lemma snap_down_clear:
  assumes "small_int oy"
  shows "\<not> check_collision px (f_of_sint (oy - PLAYER_SIZE)) ox oy"
proof -
  note oby = small_int_plus [OF assms]
  have y: "f_val (f_of_sint (oy - PLAYER_SIZE)) = (sint oy - 20) * 2 ^ 149"
      "f_exp (f_of_sint (oy - PLAYER_SIZE)) < 255"
    using f_of_sint_exact [of "oy - PLAYER_SIZE"] oby by simp_all
  have "(sint oy - 20) * 2 ^ 149 + 20 * 2 ^ 149 = sint oy * 2 ^ 149"
    by (simp add: algebra_simps)
  moreover have "exact (sint oy * 2 ^ 149)"
    using oby(3) by (rule exact_scaled) simp
  ultimately have "exact (f_val (f_of_sint (oy - PLAYER_SIZE)) + f_val (f_of_sint PLAYER_SIZE))"
    by (simp only: y f_val_PLAYER_SIZE)
  from f_add_exact [OF y(2) f_val_PLAYER_SIZE(2) this]
  have "f_val (f_add (f_of_sint (oy - PLAYER_SIZE)) (f_of_sint PLAYER_SIZE)) = sint oy * 2 ^ 149"
    by (simp add: y f_val_PLAYER_SIZE algebra_simps)
  moreover have "f_val (f_of_sint oy) = sint oy * 2 ^ 149"
    using f_of_sint_exact [of oy] oby by simp
  ultimately show ?thesis
    by (simp add: check_collision_def f_gt_def f_lt_def)
qed

lemma snap_up_clear: "\<not> check_collision px (f_of_sint (oy + BLOCK_SIZE)) ox oy"
  by (simp add: check_collision_def f_lt_def)


subsection \<open>Conversions of the constants\<close>

lemma f_of_sint_0: "f_of_sint 0 = 0"
  by code_simp

lemma f_of_sint_20: "f_of_sint 20 = 0x41A00000"
  by code_simp

lemma f_of_sint_40: "f_of_sint 40 = 0x42200000"
  by code_simp

lemma f_of_sint_100: "f_of_sint 100 = 0x42C80000"
  by code_simp

lemma f_of_sint_400: "f_of_sint 400 = 0x43C80000"
  by code_simp

lemma f_of_sint_600: "f_of_sint 600 = 0x44160000"
  by code_simp

lemma f_of_sint_780: "f_of_sint 780 = 0x44430000"
  by code_simp

lemma f_real_GRAVITY: "f_real GRAVITY = 1 / 2"
  unfolding f_real_def by code_simp

lemma f_real_MOVE_SPEED: "f_real MOVE_SPEED = 5"
  unfolding f_real_def by code_simp

lemma f_real_neg_MOVE_SPEED: "f_real (f_neg MOVE_SPEED) = - 5"
  unfolding f_real_def by code_simp

lemma f_real_JUMP_STRENGTH: "f_real JUMP_STRENGTH = - 12"
  unfolding f_real_def by code_simp

subsection \<open>What each block of the step leaves alone\<close>

lemma y_scan_x: "p_x (fst (y_scan lvl new_y p)) = p_x p"
  by (induction lvl) auto

lemma y_scan_vx: "p_vx (fst (y_scan lvl new_y p)) = p_vx p"
  by (induction lvl) auto

lemma update_vertical_sel:
  "update_vertical lvl p =
     (let new_y = f_add (p_y p) (p_vy p);
          r = y_scan lvl new_y (p\<lparr>on_ground := False\<rparr>)
      in if snd r then fst r else (fst r)\<lparr>p_y := new_y\<rparr>)"
  by (simp add: update_vertical_def Let_def split: prod.splits)

lemma update_vertical_x: "p_x (update_vertical lvl p) = p_x p"
  by (simp add: update_vertical_sel Let_def y_scan_x)

lemma update_vertical_vx: "p_vx (update_vertical lvl p) = p_vx p"
  by (simp add: update_vertical_sel Let_def y_scan_vx)

lemma update_horizontal_vx: "p_vx (update_horizontal lvl p) = p_vx p"
  by (simp add: update_horizontal_def Let_def)

lemma update_horizontal_y: "p_y (update_horizontal lvl p) = p_y p"
  by (simp add: update_horizontal_def Let_def)

lemma update_horizontal_vy: "p_vy (update_horizontal lvl p) = p_vy p"
  by (simp add: update_horizontal_def Let_def)

lemma update_horizontal_on_ground: "on_ground (update_horizontal lvl p) = on_ground p"
  by (simp add: update_horizontal_def Let_def)

lemma update_bounds_vx: "p_vx (update_bounds p) = p_vx p"
  by (simp add: update_bounds_def)

lemma update_bounds_on_ground: "on_ground (update_bounds p) = on_ground p"
  by (simp add: update_bounds_def)

lemma update_input_vx:
  "p_vx (update_input p keys) =
     (if keys SDL_SCANCODE_RIGHT \<noteq> 0 \<or> keys SDL_SCANCODE_D \<noteq> 0 then MOVE_SPEED
      else if keys SDL_SCANCODE_LEFT \<noteq> 0 \<or> keys SDL_SCANCODE_A \<noteq> 0 then f_neg MOVE_SPEED
      else 0)"
  by (simp add: update_input_def Let_def f_of_sint_0)

subsection \<open>The loops as searches\<close>

lemma x_collision_iff:
  "x_collision lvl new_x y = (\<exists>b \<in> set lvl. check_collision new_x y (b_x b) (b_y b))"
  by (induction lvl) auto

lemma y_scan_find:
  "y_scan lvl new_y p =
     (case find (\<lambda>b. check_collision (p_x p) new_y (b_x b) (b_y b)) lvl of
        None \<Rightarrow> (p, False)
      | Some b \<Rightarrow>
          (if f_gt (p_vy p) (f_of_sint 0)
           then (p\<lparr>p_y := f_of_sint (b_y b - PLAYER_SIZE), p_vy := f_of_sint 0,
                   on_ground := True\<rparr>, True)
           else (p\<lparr>p_y := f_of_sint (b_y b + BLOCK_SIZE), p_vy := f_of_sint 0\<rparr>, True)))"
  by (induction lvl) simp_all

lemma update_horizontal_cases:
  "update_horizontal lvl p =
     (let cx = f_add (p_x p) (p_vx p) in
      if \<exists>b \<in> set lvl. check_collision cx (p_y p) (b_x b) (b_y b) then p
      else if f_ge cx 0 \<and> f_le cx (f_of_sint (WINDOW_WIDTH - PLAYER_SIZE))
           then p\<lparr>p_x := cx\<rparr> else p)"
  by (simp add: update_horizontal_def x_collision_iff Let_def f_of_sint_0)

lemma update_vertical_find:
  "update_vertical lvl p =
     (let cy = f_add (p_y p) (p_vy p) in
      case find (\<lambda>b. check_collision (p_x p) cy (b_x b) (b_y b)) lvl of
        None \<Rightarrow> p\<lparr>p_y := cy, on_ground := False\<rparr>
      | Some b \<Rightarrow>
          (if f_gt (p_vy p) 0
           then p\<lparr>p_y := f_of_sint (b_y b - PLAYER_SIZE), p_vy := 0, on_ground := True\<rparr>
           else p\<lparr>p_y := f_of_sint (b_y b + BLOCK_SIZE), p_vy := 0, on_ground := False\<rparr>))"
  by (simp add: update_vertical_def y_scan_find Let_def f_of_sint_0 split: option.splits)

lemma update_vertical_grounded:
  "on_ground (update_vertical lvl p) \<Longrightarrow> p_vy (update_vertical lvl p) = 0"
  by (auto simp: update_vertical_find Let_def split: option.splits if_splits)

lemma update_bounds_vy:
  "p_vy (update_bounds p) = 0 \<or> p_vy (update_bounds p) = p_vy p"
  by (simp add: update_bounds_def f_of_sint_0)

subsection \<open>Comparisons\<close>


lemma f_le_not_gt: "f_le a b \<Longrightarrow> \<not> f_gt a b"
  by (simp add: f_le_def f_gt_def f_lt_def)

lemma is_nan_qnan: "is_nan qnan"
  by code_simp

lemma not_nan_zero: "\<not> is_nan 0"
  by code_simp

lemma f_add_nan: "is_nan b \<Longrightarrow> f_add a b = qnan"
  by (simp add: f_add_def)

lemma not_gt_zero: "\<not> is_nan v \<Longrightarrow> (\<not> f_gt v 0) = f_le v 0"
  using not_nan_zero by (auto simp: f_gt_def f_lt_def f_le_def)

lemma hit_not_nan:
  assumes "check_collision px (f_add y vy) ox oy"
  shows "\<not> is_nan vy"
proof
  assume "is_nan vy"
  then have "f_add y vy = qnan"
    by (rule f_add_nan)
  with assms have "f_lt qnan (f_of_sint (oy + BLOCK_SIZE))"
    by (simp add: check_collision_def)
  then show False
    using is_nan_qnan by (simp add: f_lt_def)
qed

subsection \<open>Rounding is monotone\<close>









lemma f_mag_nonneg: "0 \<le> f_mag w"
  by (simp add: f_mag_def f_frac_def)










subsection \<open>A true collision test is an overlap of the squares\<close>




subsection \<open>Values of the examples\<close>

lemma GRAVITY_positive: "f_gt GRAVITY 0"
  by code_simp

lemma standing_candidate: "f_real (f_add (f_of_sint 540) GRAVITY) = 1081 / 2"
  unfolding f_real_def by code_simp

lemma standing_hits:
  "check_collision (f_of_sint 100) (f_add (f_of_sint 540) GRAVITY) 100 560"
  by code_simp


lemma standing_tick:
  "update_player one_block standing no_keys =
     \<lparr>p_x = f_of_sint 100, p_y = f_of_sint 540, p_vx = 0, p_vy = 0, on_ground = True\<rparr>"
  by code_simp

lemma falling_free: "\<not> overlaps_any two_blocks falling"
  by code_simp

lemma falling_tick:
  "update_player two_blocks falling no_keys =
     \<lparr>p_x = f_of_sint 125, p_y = f_of_sint 540, p_vx = 0, p_vy = 0, on_ground = True\<rparr>"
  by code_simp

lemma falling_vertical:
  "update_vertical two_blocks (update_horizontal two_blocks (update_input falling no_keys)) =
     \<lparr>p_x = f_of_sint 125, p_y = f_of_sint 540, p_vx = 0, p_vy = 0, on_ground = True\<rparr>"
  by code_simp

lemma falling_lands_inside:
  "overlaps_any two_blocks
     \<lparr>p_x = f_of_sint 125, p_y = f_of_sint 540, p_vx = 0, p_vy = 0, on_ground = True\<rparr>"
  by code_simp

text \<open>
  Far from the origin the conversions round: \<open>33554458 - 20\<close> becomes \<open>33554440\<close>,
  the sum \<open>33554440 + 20\<close> is \<open>33554460\<close>, and \<open>33554458\<close> becomes \<open>33554456\<close>.
\<close>

lemma far_values:
  "f_real (f_of_sint 33554440) = 33554440"
  "f_real (f_of_sint 33554438) = 33554440"
  "f_real (f_of_sint 33554458) = 33554456"
  "f_real (f_add (f_of_sint 33554440) (f_of_sint PLAYER_SIZE)) = 33554460"
  unfolding f_real_def by code_simp+

lemma far_hit:
  "find (\<lambda>b. check_collision (p_x far_player) (f_add (p_y far_player) (p_vy far_player))
      (b_x b) (b_y b)) far_block = Some (mk_block 100 33554458)"
  by code_simp

lemma far_vertical:
  "update_vertical far_block far_player = far_player\<lparr>p_vy := 0, on_ground := True\<rparr>"
  by code_simp

lemma far_overlap:
  "check_collision (p_x far_player) (p_y far_player) 100 33554458"
  by code_simp

lemma far_positive: "f_gt (p_vy far_player) 0"
  by code_simp


lemma off_grid_sum: "f_add 0x43FA0001 (f_of_sint PLAYER_SIZE) = f_of_sint 520"
  by code_simp





text \<open>The blocks of the level and the player \<^verbatim>\<open>main\<close> creates are on that grid.\<close>

lemma level_small: "\<forall>b \<in> set level. small_int (b_x b) \<and> small_int (b_y b)"
  by (simp add: level_def mk_block_def small_int_def)

lemma spawn_on_grid: "on_half_grid (p_x spawn)" "on_half_grid (p_y spawn)"
  by code_simp+


lemma walking_step:
  "update_horizontal one_block (update_input spawn (no_keys(SDL_SCANCODE_RIGHT := 1))) =
     spawn\<lparr>p_x := f_of_sint 105, p_vx := MOVE_SPEED, p_vy := GRAVITY\<rparr>"
  by code_simp

lemma walking_moved: "f_of_sint 105 \<noteq> f_of_sint 100"
  by code_simp

lemma spawn_falls_free:
  "find (\<lambda>b. check_collision (p_x spawn) (f_add (p_y spawn) (p_vy spawn)) (b_x b) (b_y b))
     one_block = None"
  by code_simp

lemma sunk_overlaps: "overlaps_any one_block sunk"
  by code_simp

lemma sunk_horizontal:
  "update_horizontal one_block (update_input sunk no_keys) = sunk\<lparr>p_vy := GRAVITY\<rparr>"
  by code_simp

lemma sunk_still_overlaps: "overlaps_any one_block (sunk\<lparr>p_vy := GRAVITY\<rparr>)"
  by code_simp

section \<open>The claims\<close>

subsection \<open>Vertical resolution\<close>

text \<open>
  Claim C1. The vertical block of the step computes the candidate \<open>y + vy\<close>, searches
  the level in its order for the first block that overlaps the player's box at
  \<open>(x, candidate)\<close>, and resolves against that block alone: with \<open>vy > 0\<close> it puts
  \<open>y\<close> at the block's \<open>y - PLAYER_SIZE\<close>, zeroes \<open>vy\<close> and sets \<open>on_ground\<close>; otherwise
  it puts \<open>y\<close> at the block's \<open>y + BLOCK_SIZE\<close>, zeroes \<open>vy\<close>, and \<open>on_ground\<close> is
  false. With no overlapping block \<open>y\<close> becomes the candidate, unclamped. Within a
  tick this block runs on the player the horizontal block has returned, so \<open>x\<close> is
  the updated one.
\<close>

theorem vertical_resolution:
  "update_vertical lvl p =
     (let candidate_y = f_add (p_y p) (p_vy p) in
      case find (\<lambda>b. check_collision (p_x p) candidate_y (b_x b) (b_y b)) lvl of
        None \<Rightarrow> p\<lparr>p_y := candidate_y, on_ground := False\<rparr>
      | Some b \<Rightarrow>
          (if f_gt (p_vy p) 0
           then p\<lparr>p_y := f_of_sint (b_y b - PLAYER_SIZE), p_vy := 0, on_ground := True\<rparr>
           else p\<lparr>p_y := f_of_sint (b_y b + BLOCK_SIZE), p_vy := 0, on_ground := False\<rparr>))
   \<and> (find (\<lambda>b. check_collision (p_x p) (f_add (p_y p) (p_vy p)) (b_x b) (b_y b)) lvl = Some b
        \<longrightarrow> (\<not> f_gt (p_vy p) 0) = f_le (p_vy p) 0)
   \<and> update_player lvl p0 keys =
       update_bounds (update_vertical lvl (update_horizontal lvl (update_input p0 keys)))"
proof (intro conjI impI)
  assume "find (\<lambda>b. check_collision (p_x p) (f_add (p_y p) (p_vy p)) (b_x b) (b_y b)) lvl = Some b"
  then have "check_collision (p_x p) (f_add (p_y p) (p_vy p)) (b_x b) (b_y b)"
    by (auto simp: find_Some_iff)
  then have "\<not> is_nan (p_vy p)"
    by (rule hit_not_nan)
  then show "(\<not> f_gt (p_vy p) 0) = f_le (p_vy p) 0"
    by (rule not_gt_zero)
qed (simp_all only: update_vertical_find update_player_def)

theorem vertical_resolution_witness:
  "find (\<lambda>b. check_collision (p_x (standing\<lparr>p_vy := GRAVITY\<rparr>))
           (f_add (p_y (standing\<lparr>p_vy := GRAVITY\<rparr>)) (p_vy (standing\<lparr>p_vy := GRAVITY\<rparr>)))
           (b_x b) (b_y b)) one_block = Some (mk_block 100 560) \<and>
   (\<not> f_gt (p_vy (standing\<lparr>p_vy := GRAVITY\<rparr>)) 0) =
     f_le (p_vy (standing\<lparr>p_vy := GRAVITY\<rparr>)) 0 \<and>
   update_vertical one_block (standing\<lparr>p_vy := GRAVITY\<rparr>) =
     standing\<lparr>p_y := f_of_sint (560 - PLAYER_SIZE), p_vy := 0, on_ground := True\<rparr>"
proof -
  let ?p = "standing\<lparr>p_vy := GRAVITY\<rparr>"
  have hit: "check_collision (p_x standing) (f_add (p_y standing) GRAVITY) 100 560"
    using standing_hits by (simp add: standing_def)
  then have found: "find (\<lambda>b. check_collision (p_x ?p) (f_add (p_y ?p) (p_vy ?p)) (b_x b) (b_y b))
      one_block = Some (mk_block 100 560)"
    by (simp add: one_block_def mk_block_def)
  note inst = vertical_resolution [of one_block ?p "mk_block 100 560"]
  from inst found have "(\<not> f_gt (p_vy ?p) 0) = f_le (p_vy ?p) 0"
    by blast
  moreover from inst hit GRAVITY_positive
  have "update_vertical one_block ?p =
      standing\<lparr>p_y := f_of_sint (560 - PLAYER_SIZE), p_vy := 0, on_ground := True\<rparr>"
    by (simp add: one_block_def mk_block_def Let_def)
  ultimately show ?thesis
    using found by blast
qed

subsection \<open>Horizontal resolution\<close>

text \<open>
  Claim C2. The horizontal block computes the candidate \<open>x + vx\<close> and tests it against
  every block at the player's current \<open>y\<close> (the input block changes neither \<open>x\<close> nor
  \<open>y\<close>). If some block overlaps, the player is returned unchanged; if none overlaps
  and the candidate lies in \<open>[0, WINDOW_WIDTH - PLAYER_SIZE]\<close>, \<open>x\<close> becomes the
  candidate and nothing else changes; if none overlaps and the candidate is outside
  that range, the player is returned unchanged.
\<close>

theorem horizontal_resolution:
  "update_horizontal lvl p =
     (let candidate_x = f_add (p_x p) (p_vx p) in
      if \<exists>b \<in> set lvl. check_collision candidate_x (p_y p) (b_x b) (b_y b) then p
      else if f_ge candidate_x 0 \<and> f_le candidate_x (f_of_sint (WINDOW_WIDTH - PLAYER_SIZE))
           then p\<lparr>p_x := candidate_x\<rparr> else p)
   \<and> p_x (update_input p0 keys) = p_x p0 \<and> p_y (update_input p0 keys) = p_y p0"
  by (simp add: update_horizontal_cases update_input_def Let_def)

theorem horizontal_resolution_witness:
  "update_horizontal one_block (sunk\<lparr>p_vy := GRAVITY\<rparr>) = sunk\<lparr>p_vy := GRAVITY\<rparr> \<and>
   update_horizontal one_block (spawn\<lparr>p_vx := MOVE_SPEED\<rparr>) =
     spawn\<lparr>p_x := f_of_sint 105, p_vx := MOVE_SPEED\<rparr> \<and>
   update_horizontal one_block (spawn\<lparr>p_x := f_of_sint 780, p_vx := MOVE_SPEED\<rparr>) =
     spawn\<lparr>p_x := f_of_sint 780, p_vx := MOVE_SPEED\<rparr>"
proof -
  have hit: "check_collision (f_add (f_of_sint 100) (f_of_sint 0)) (f_of_sint 550) 100 560"
    by code_simp
  have 1: "update_horizontal one_block (sunk\<lparr>p_vy := GRAVITY\<rparr>) = sunk\<lparr>p_vy := GRAVITY\<rparr>"
    using horizontal_resolution [of one_block "sunk\<lparr>p_vy := GRAVITY\<rparr>"] hit
    by (simp add: one_block_def mk_block_def sunk_def Let_def)
  have step: "f_add (f_of_sint 100) MOVE_SPEED = f_of_sint 105"
    by code_simp
  have free: "\<not> check_collision (f_of_sint 105) (f_of_sint 400) 100 560"
    by code_simp
  have inside: "f_ge (f_of_sint 105) 0" "f_le (f_of_sint 105) (f_of_sint (WINDOW_WIDTH - PLAYER_SIZE))"
    by code_simp+
  have 2: "update_horizontal one_block (spawn\<lparr>p_vx := MOVE_SPEED\<rparr>) =
      spawn\<lparr>p_x := f_of_sint 105, p_vx := MOVE_SPEED\<rparr>"
    using horizontal_resolution [of one_block "spawn\<lparr>p_vx := MOVE_SPEED\<rparr>"] step free inside
    by (simp add: one_block_def mk_block_def spawn_def Let_def)
  have step': "f_add (f_of_sint 780) MOVE_SPEED = f_of_sint 785"
    by code_simp
  have free': "\<not> check_collision (f_of_sint 785) (f_of_sint 400) 100 560"
    by code_simp
  have outside: "\<not> f_le (f_of_sint 785) (f_of_sint (WINDOW_WIDTH - PLAYER_SIZE))"
    by code_simp
  have 3: "update_horizontal one_block (spawn\<lparr>p_x := f_of_sint 780, p_vx := MOVE_SPEED\<rparr>) =
      spawn\<lparr>p_x := f_of_sint 780, p_vx := MOVE_SPEED\<rparr>"
    using horizontal_resolution
        [of one_block "spawn\<lparr>p_x := f_of_sint 780, p_vx := MOVE_SPEED\<rparr>"] step' free' outside
    by (simp add: one_block_def mk_block_def spawn_def Let_def)
  show ?thesis
    using 1 2 3 by blast
qed

subsection \<open>The collision test\<close>




subsection \<open>Jump and gravity\<close>

text \<open>
  Claim C5. The jump (\<open>vy\<close> set to \<open>JUMP_STRENGTH\<close>, \<open>on_ground\<close> cleared) happens only
  when a jump key is held and \<open>on_ground\<close> was true on entry; \<open>GRAVITY\<close> is then added
  to \<open>vy\<close> in every case. So with \<open>on_ground\<close> false on entry, \<open>vy\<close> changes by the
  gravity addition alone, whatever the keys.
\<close>

theorem jump_and_gravity:
  "p_vy (update_input p keys) =
     f_add (if (keys SDL_SCANCODE_SPACE \<noteq> 0 \<or> keys SDL_SCANCODE_UP \<noteq> 0 \<or>
                keys SDL_SCANCODE_W \<noteq> 0) \<and> on_ground p
            then JUMP_STRENGTH else p_vy p) GRAVITY
   \<and> on_ground (update_input p keys) =
       (if (keys SDL_SCANCODE_SPACE \<noteq> 0 \<or> keys SDL_SCANCODE_UP \<noteq> 0 \<or>
            keys SDL_SCANCODE_W \<noteq> 0) \<and> on_ground p
        then False else on_ground p)
   \<and> (\<not> on_ground p \<longrightarrow> p_vy (update_input p keys) = f_add (p_vy p) GRAVITY)"
  by (simp add: update_input_def Let_def)

theorem jump_and_gravity_witness:
  "\<not> on_ground spawn \<and>
   p_vy (update_input spawn (no_keys(SDL_SCANCODE_SPACE := 1))) = f_add (p_vy spawn) GRAVITY \<and>
   p_vy (update_input (spawn\<lparr>on_ground := True\<rparr>) (no_keys(SDL_SCANCODE_SPACE := 1))) =
     f_add JUMP_STRENGTH GRAVITY \<and>
   f_real (f_add JUMP_STRENGTH GRAVITY) = - 23 / 2"
proof -
  have air: "\<not> on_ground spawn"
    by (simp add: spawn_def)
  have val: "f_real (f_add JUMP_STRENGTH GRAVITY) = - 23 / 2"
    unfolding f_real_def by code_simp
  have "p_vy (update_input spawn (no_keys(SDL_SCANCODE_SPACE := 1))) = f_add (p_vy spawn) GRAVITY"
    using jump_and_gravity [of spawn "no_keys(SDL_SCANCODE_SPACE := 1)"] air by blast
  moreover have "p_vy (update_input (spawn\<lparr>on_ground := True\<rparr>) (no_keys(SDL_SCANCODE_SPACE := 1))) =
      f_add JUMP_STRENGTH GRAVITY"
    using jump_and_gravity [of "spawn\<lparr>on_ground := True\<rparr>" "no_keys(SDL_SCANCODE_SPACE := 1)"]
    by simp
  ultimately show ?thesis
    using air val by blast
qed

subsection \<open>Horizontal velocity\<close>

text \<open>
  Claim C4. After a tick the horizontal velocity is a function of the keys alone, not
  of its previous value: it is \<open>MOVE_SPEED\<close> when a right key is held (whether or not
  a left key is held too), \<open>- MOVE_SPEED\<close> when only a left key is held, and zero
  when neither is held.
\<close>

theorem vx_from_keys:
  "p_vx (update_player lvl p keys) =
     (if keys SDL_SCANCODE_RIGHT \<noteq> 0 \<or> keys SDL_SCANCODE_D \<noteq> 0 then MOVE_SPEED
      else if keys SDL_SCANCODE_LEFT \<noteq> 0 \<or> keys SDL_SCANCODE_A \<noteq> 0 then f_neg MOVE_SPEED
      else 0)"
  unfolding update_player_def
  by (simp only: update_bounds_vx update_vertical_vx update_horizontal_vx update_input_vx)

theorem vx_from_keys_witness:
  "p_vx (update_player level (spawn\<lparr>p_vx := GRAVITY\<rparr>)
      (no_keys(SDL_SCANCODE_LEFT := 1, SDL_SCANCODE_RIGHT := 1))) = MOVE_SPEED \<and>
   p_vx (update_player level (spawn\<lparr>p_vx := GRAVITY\<rparr>) (no_keys(SDL_SCANCODE_A := 1))) =
     f_neg MOVE_SPEED \<and>
   p_vx (update_player level (spawn\<lparr>p_vx := GRAVITY\<rparr>) no_keys) = 0"
  using
    vx_from_keys [of level "spawn\<lparr>p_vx := GRAVITY\<rparr>"
      "no_keys(SDL_SCANCODE_LEFT := 1, SDL_SCANCODE_RIGHT := 1)"]
    vx_from_keys [of level "spawn\<lparr>p_vx := GRAVITY\<rparr>" "no_keys(SDL_SCANCODE_A := 1)"]
    vx_from_keys [of level "spawn\<lparr>p_vx := GRAVITY\<rparr>" no_keys]
  by (simp add: no_keys_def SDL_SCANCODE_LEFT_def SDL_SCANCODE_RIGHT_def
      SDL_SCANCODE_A_def SDL_SCANCODE_D_def)

subsection \<open>Out-of-world recovery\<close>

text \<open>
  Claim C6. Let \<open>q\<close> be the player after the vertical block. If \<open>y\<close> of \<open>q\<close> is greater
  than \<open>WINDOW_HEIGHT\<close>, the step returns \<open>q\<close> with \<open>x = 100\<close>, \<open>y = 400\<close> and \<open>vy = 0\<close>
  and every other field as in \<open>q\<close>; otherwise (in particular when \<open>y \<le> WINDOW_HEIGHT\<close>)
  it returns \<open>q\<close> itself. In both cases \<open>vx\<close> is the value the input block computed
  this tick and \<open>on_ground\<close> is the value the vertical block set.
\<close>

theorem out_of_world_recovery:
  "(let q = update_vertical lvl (update_horizontal lvl (update_input p keys));
        r = update_player lvl p keys
    in (f_gt (p_y q) (f_of_sint WINDOW_HEIGHT) \<longrightarrow>
          r = q\<lparr>p_x := f_of_sint 100, p_y := f_of_sint 400, p_vy := 0\<rparr>)
     \<and> (\<not> f_gt (p_y q) (f_of_sint WINDOW_HEIGHT) \<longrightarrow> r = q)
     \<and> (f_le (p_y q) (f_of_sint WINDOW_HEIGHT) \<longrightarrow> r = q)
     \<and> p_vx r = p_vx (update_input p keys)
     \<and> on_ground r = on_ground q)"
  by (auto simp: Let_def update_player_def update_bounds_def f_of_sint_0 f_le_not_gt
        update_vertical_vx update_horizontal_vx)

theorem out_of_world_recovery_witness:
  "f_gt (p_y (update_vertical one_block (update_horizontal one_block
       (update_input (spawn\<lparr>p_y := f_of_sint 650\<rparr>) (no_keys(SDL_SCANCODE_D := 1))))))
     (f_of_sint WINDOW_HEIGHT) \<and>
   update_player one_block (spawn\<lparr>p_y := f_of_sint 650\<rparr>) (no_keys(SDL_SCANCODE_D := 1)) =
     \<lparr>p_x = f_of_sint 100, p_y = f_of_sint 400, p_vx = MOVE_SPEED, p_vy = 0,
      on_ground = False\<rparr> \<and>
   f_le (p_y (update_vertical one_block (update_horizontal one_block
       (update_input standing no_keys)))) (f_of_sint WINDOW_HEIGHT) \<and>
   update_player one_block standing no_keys =
     update_vertical one_block (update_horizontal one_block (update_input standing no_keys))"
proof -
  let ?p = "spawn\<lparr>p_y := f_of_sint 650\<rparr>"
  let ?k = "no_keys(SDL_SCANCODE_D := 1)"
  let ?q = "update_vertical one_block (update_horizontal one_block (update_input ?p ?k))"
  let ?q' = "update_vertical one_block (update_horizontal one_block (update_input standing no_keys))"
  have q: "?q = \<lparr>p_x = f_of_sint 105, p_y = f_add (f_of_sint 650) GRAVITY,
      p_vx = MOVE_SPEED, p_vy = GRAVITY, on_ground = False\<rparr>"
    by code_simp
  have out: "f_gt (f_add (f_of_sint 650) GRAVITY) (f_of_sint WINDOW_HEIGHT)"
    by code_simp
  have 1: "f_gt (p_y ?q) (f_of_sint WINDOW_HEIGHT)"
    using q out by simp
  have 2: "update_player one_block ?p ?k =
      \<lparr>p_x = f_of_sint 100, p_y = f_of_sint 400, p_vx = MOVE_SPEED, p_vy = 0,
       on_ground = False\<rparr>"
    using out_of_world_recovery [of one_block ?p ?k] 1 q by (simp add: Let_def)
  have 3: "f_le (p_y ?q') (f_of_sint WINDOW_HEIGHT)"
    by code_simp
  have 4: "update_player one_block standing no_keys = ?q'"
    using out_of_world_recovery [of one_block standing no_keys] 3 by (simp add: Let_def)
  show ?thesis
    using 1 2 3 4 by blast
qed

subsection \<open>Overlap after a tick\<close>

text \<open>
  Claim C7, as stated: after the horizontal block, after the vertical block and at the
  end of a tick the player's box overlaps no block, for every player, level and
  input. This fails. A move that is rejected leaves a player that overlapped a block
  where it was (\<open>sunk\<close>); and the vertical block puts the player against the first
  overlapping block without testing the others, so a player that overlapped nothing
  (\<open>falling\<close>) ends the tick inside the second block of \<open>two_blocks\<close>. Far from the
  origin, where \<open>y - PLAYER_SIZE\<close> is rounded, the player put on a block still tests
  as overlapping that block (\<open>far_player\<close>).
\<close>

theorem no_overlap_counterexample:
  "overlaps_any one_block (update_horizontal one_block (update_input sunk no_keys)) \<and>
   \<not> overlaps_any two_blocks falling \<and>
   overlaps_any two_blocks
     (update_vertical two_blocks (update_horizontal two_blocks (update_input falling no_keys))) \<and>
   overlaps_any two_blocks (update_player two_blocks falling no_keys) \<and>
   find (\<lambda>b. check_collision (p_x far_player) (f_add (p_y far_player) (p_vy far_player))
      (b_x b) (b_y b)) far_block = Some (mk_block 100 33554458) \<and>
   check_collision (p_x (update_vertical far_block far_player))
     (p_y (update_vertical far_block far_player)) 100 33554458"
proof -
  have "check_collision (p_x (update_vertical far_block far_player))
     (p_y (update_vertical far_block far_player)) 100 33554458"
    using far_overlap by (simp add: far_vertical)
  then show ?thesis
    using sunk_horizontal sunk_still_overlaps falling_free falling_vertical falling_tick
      falling_lands_inside far_hit
    by simp
qed

text \<open>
  Claim C7, amended (overlap being the verdict of \<open>check_collision\<close>). The horizontal
  block keeps a player free of overlap: if the box overlapped no block on entry it
  overlaps none on exit, and whenever the block changes \<open>x\<close> the box overlaps none on
  exit. The vertical block leaves a box that
  overlaps no block whenever no block overlapped the candidate position. When a block
  did overlap the candidate, the box on exit does not overlap that block, provided
  \<open>vy \<le> 0\<close> or the block's \<open>y\<close> is at most \<open>2 ^ 24 - 40\<close> in magnitude (so that
  \<open>y - PLAYER_SIZE\<close> and the sum back are exact). Nothing is claimed about the other
  blocks after the player is put against one, nor about the position the
  out-of-world recovery resets to.
\<close>

theorem no_overlap_amended:
  "(\<not> overlaps_any lvl p \<longrightarrow> \<not> overlaps_any lvl (update_horizontal lvl p))
   \<and> (p_x (update_horizontal lvl p) \<noteq> p_x p \<longrightarrow> \<not> overlaps_any lvl (update_horizontal lvl p))
   \<and> (find (\<lambda>b. check_collision (p_x p) (f_add (p_y p) (p_vy p)) (b_x b) (b_y b)) lvl = None
        \<longrightarrow> \<not> overlaps_any lvl (update_vertical lvl p))
   \<and> (find (\<lambda>b. check_collision (p_x p) (f_add (p_y p) (p_vy p)) (b_x b) (b_y b)) lvl = Some b
        \<and> (\<not> f_gt (p_vy p) 0 \<or> small_int (b_y b))
        \<longrightarrow> \<not> check_collision (p_x (update_vertical lvl p)) (p_y (update_vertical lvl p))
              (b_x b) (b_y b))"
proof (intro conjI impI)
  assume "\<not> overlaps_any lvl p"
  then show "\<not> overlaps_any lvl (update_horizontal lvl p)"
    by (auto simp: update_horizontal_cases overlaps_any_def Let_def split: if_splits)
next
  assume "p_x (update_horizontal lvl p) \<noteq> p_x p"
  then show "\<not> overlaps_any lvl (update_horizontal lvl p)"
    by (auto simp: update_horizontal_cases overlaps_any_def Let_def split: if_splits)
next
  assume "find (\<lambda>b. check_collision (p_x p) (f_add (p_y p) (p_vy p)) (b_x b) (b_y b)) lvl = None"
  moreover from this
  have "\<forall>b \<in> set lvl. \<not> check_collision (p_x p) (f_add (p_y p) (p_vy p)) (b_x b) (b_y b)"
    by (simp add: find_None_iff)
  ultimately show "\<not> overlaps_any lvl (update_vertical lvl p)"
    by (simp add: update_vertical_find overlaps_any_def Let_def)
next
  assume "find (\<lambda>b. check_collision (p_x p) (f_add (p_y p) (p_vy p)) (b_x b) (b_y b)) lvl = Some b
    \<and> (\<not> f_gt (p_vy p) 0 \<or> small_int (b_y b))"
  then show "\<not> check_collision (p_x (update_vertical lvl p)) (p_y (update_vertical lvl p))
      (b_x b) (b_y b)"
    by (auto simp: update_vertical_find Let_def snap_up_clear snap_down_clear)
qed

theorem no_overlap_amended_witness:
  "\<not> overlaps_any two_blocks falling \<and>
   \<not> overlaps_any two_blocks (update_horizontal two_blocks falling) \<and>
   p_x (update_horizontal one_block (update_input spawn (no_keys(SDL_SCANCODE_RIGHT := 1)))) \<noteq>
     p_x (update_input spawn (no_keys(SDL_SCANCODE_RIGHT := 1))) \<and>
   \<not> overlaps_any one_block
     (update_horizontal one_block (update_input spawn (no_keys(SDL_SCANCODE_RIGHT := 1)))) \<and>
   find (\<lambda>b. check_collision (p_x spawn) (f_add (p_y spawn) (p_vy spawn)) (b_x b) (b_y b))
     one_block = None \<and>
   \<not> overlaps_any one_block (update_vertical one_block spawn) \<and>
   find (\<lambda>b. check_collision (p_x (standing\<lparr>p_vy := GRAVITY\<rparr>))
           (f_add (p_y (standing\<lparr>p_vy := GRAVITY\<rparr>)) (p_vy (standing\<lparr>p_vy := GRAVITY\<rparr>)))
           (b_x b) (b_y b)) one_block = Some (mk_block 100 560) \<and>
   small_int (b_y (mk_block 100 560)) \<and>
   \<not> check_collision (p_x (update_vertical one_block (standing\<lparr>p_vy := GRAVITY\<rparr>)))
        (p_y (update_vertical one_block (standing\<lparr>p_vy := GRAVITY\<rparr>)))
        (b_x (mk_block 100 560)) (b_y (mk_block 100 560))"
proof -
  let ?w = "update_input spawn (no_keys(SDL_SCANCODE_RIGHT := 1))"
  let ?s = "standing\<lparr>p_vy := GRAVITY\<rparr>"
  have 1: "\<not> overlaps_any two_blocks (update_horizontal two_blocks falling)"
    using no_overlap_amended [of two_blocks falling] falling_free by blast
  have moved: "p_x (update_horizontal one_block ?w) \<noteq> p_x ?w"
    using walking_moved
    by (simp add: walking_step) (simp add: update_input_def Let_def spawn_def)
  then have 2: "\<not> overlaps_any one_block (update_horizontal one_block ?w)"
    using no_overlap_amended [of one_block ?w] by blast
  have 3: "\<not> overlaps_any one_block (update_vertical one_block spawn)"
    using no_overlap_amended [of one_block spawn] spawn_falls_free by blast
  have hit: "check_collision (p_x standing) (f_add (p_y standing) GRAVITY) 100 560"
    using standing_hits by (simp add: standing_def)
  then have found: "find (\<lambda>b. check_collision (p_x ?s) (f_add (p_y ?s) (p_vy ?s)) (b_x b) (b_y b))
      one_block = Some (mk_block 100 560)"
    by (simp add: one_block_def mk_block_def)
  have small: "small_int (b_y (mk_block 100 560))"
    by (simp add: mk_block_def small_int_def)
  have 4: "\<not> check_collision (p_x (update_vertical one_block ?s))
      (p_y (update_vertical one_block ?s)) (b_x (mk_block 100 560)) (b_y (mk_block 100 560))"
    using no_overlap_amended [of one_block ?s "mk_block 100 560"] found small by blast
  show ?thesis
    using falling_free 1 moved 2 spawn_falls_free 3 found small 4 by blast
qed

subsection \<open>Order of the blocks in the horizontal block\<close>

text \<open>
  Claim C8. The horizontal block returns the same player for every reordering of the
  level: only whether some block overlaps the candidate matters.
\<close>

theorem horizontal_order_insensitive:
  "mset lvl = mset lvl' \<Longrightarrow> update_horizontal lvl p = update_horizontal lvl' p"
proof -
  assume "mset lvl = mset lvl'"
  then have "set lvl = set lvl'"
    by (rule mset_eq_setD)
  then show ?thesis
    by (simp add: update_horizontal_cases)
qed

theorem horizontal_order_insensitive_witness:
  "mset two_blocks = mset (rev two_blocks) \<and>
   update_horizontal two_blocks falling = update_horizontal (rev two_blocks) falling"
proof -
  have "mset two_blocks = mset (rev two_blocks)"
    by simp
  then show ?thesis
    using horizontal_order_insensitive [of two_blocks "rev two_blocks" falling] by blast
qed

subsection \<open>One tick on a block\<close>

text \<open>
  Claim C9. With \<open>GRAVITY = 0.5\<close>, \<open>BLOCK_SIZE = 40\<close> and \<open>PLAYER_SIZE = 20\<close>, the player
  \<open>{x = 100, y = 540, vx = 0, vy = 0, on_ground = false}\<close>, a level holding the block
  \<open>{100, 560}\<close> and no key held: the candidate \<open>y\<close> is \<open>540.5\<close>, it overlaps the block,
  and one step returns \<open>y = 540\<close>, \<open>vy = 0\<close>, \<open>on_ground = true\<close> (and \<open>x = 100\<close>,
  \<open>vx = 0\<close>).
\<close>

theorem one_tick_on_block:
  "update_player [mk_block 100 560]
      \<lparr>p_x = f_of_sint 100, p_y = f_of_sint 540, p_vx = 0, p_vy = 0, on_ground = False\<rparr>
      no_keys =
     \<lparr>p_x = f_of_sint 100, p_y = f_of_sint 540, p_vx = 0, p_vy = 0, on_ground = True\<rparr>
   \<and> f_real GRAVITY = 1 / 2 \<and> BLOCK_SIZE = 40 \<and> PLAYER_SIZE = 20
   \<and> f_real (f_of_sint 540) = 540
   \<and> f_real (f_add (f_of_sint 540) (f_add 0 GRAVITY)) = 1081 / 2
   \<and> check_collision (f_of_sint 100) (f_add (f_of_sint 540) (f_add 0 GRAVITY)) 100 560"
proof -
  have "f_real (f_of_sint 540) = 540"
    unfolding f_real_def by code_simp
  moreover have "f_add 0 GRAVITY = GRAVITY"
    by code_simp
  ultimately show ?thesis
    using standing_tick standing_candidate standing_hits f_real_GRAVITY
    by (simp add: one_block_def standing_def f_of_sint_0 BLOCK_SIZE_def PLAYER_SIZE_def)
qed

subsection \<open>Grounded players do not move vertically\<close>

text \<open>
  Claim C10. At the end of every step, \<open>on_ground\<close> implies \<open>vy = 0\<close> (the pattern of
  \<open>+0.0\<close>): the vertical block clears \<open>on_ground\<close> and sets it only together with
  \<open>vy = 0\<close>, and the out-of-world recovery zeroes \<open>vy\<close> and leaves \<open>on_ground\<close> alone.
\<close>

theorem grounded_implies_vy_zero:
  "on_ground (update_player lvl p keys) \<longrightarrow> p_vy (update_player lvl p keys) = 0"
proof
  let ?q = "update_vertical lvl (update_horizontal lvl (update_input p keys))"
  assume "on_ground (update_player lvl p keys)"
  then have "on_ground ?q"
    by (simp add: update_player_def update_bounds_on_ground)
  then have "p_vy ?q = 0"
    by (rule update_vertical_grounded)
  then show "p_vy (update_player lvl p keys) = 0"
    using update_bounds_vy [of ?q] by (auto simp: update_player_def)
qed

theorem grounded_implies_vy_zero_witness:
  "on_ground (update_player two_blocks falling no_keys) \<and>
   p_vy (update_player two_blocks falling no_keys) = 0"
proof -
  have "on_ground (update_player two_blocks falling no_keys)"
    by (simp add: falling_tick)
  then show ?thesis
    using grounded_implies_vy_zero [of two_blocks falling no_keys] by blast
qed

end
